theory Spec2Isabelle
  imports Complex_Main "HOL-Library.AList"
begin

section \<open>JavaScript values used by the dashboard\<close>

text \<open>
  Numbers are modelled by exact values: request and user counts by \<open>int\<close>, transaction
  volumes, percentages and slider positions by \<open>real\<close>.  A nullable numeric column is an
  \<open>option\<close>; \<open>x || 0\<close> reads it.  An object used as a dictionary is an association list
  in insertion order (the order of \<open>Object.keys\<close> for keys that are not array indices);
  \<open>AList.update\<close> overwrites a present key in place and appends an absent one, as an
  assignment \<open>obj[k] = v\<close> does.  Keys are taken not to collide with the property names
  inherited from \<open>Object.prototype\<close>.
\<close>

fun or0 :: "'a::zero option \<Rightarrow> 'a" where
  "or0 None = 0"
| "or0 (Some v) = v"

definition Math_round :: "real \<Rightarrow> int" where
  \<comment> \<open>\<open>Math.round\<close>: the nearest integer, a half rounded up.\<close>
  "Math_round x = \<lfloor>x + 1 / 2\<rfloor>"

definition toLowerCase_char :: "char \<Rightarrow> char" where
  \<comment> \<open>ASCII letters only; chain identifiers are ASCII.\<close>
  "toLowerCase_char c =
     (case map_of (zip ''ABCDEFGHIJKLMNOPQRSTUVWXYZ'' ''abcdefghijklmnopqrstuvwxyz'') c of
        None \<Rightarrow> c
      | Some l \<Rightarrow> l)"

definition toLowerCase :: "string \<Rightarrow> string" where
  "toLowerCase s = map toLowerCase_char s"

fun str_le :: "string \<Rightarrow> string \<Rightarrow> bool" where
  \<comment> \<open>\<open>a <= b\<close> on strings: lexicographic on the character codes.\<close>
  "str_le [] _ = True"
| "str_le (x # xs) [] = False"
| "str_le (x # xs) (y # ys) =
     (if (of_char x :: nat) < of_char y then True
      else if (of_char x :: nat) = of_char y then str_le xs ys
      else False)"

definition sort_desc :: "int list \<Rightarrow> int list" where
  \<comment> \<open>\<open>xs.sort((a, b) => b - a)\<close>: a stable sort, largest first.\<close>
  "sort_desc xs = sort_key uminus xs"


section \<open>Dates of the Dashboard (part 000, lines 26--36, 720--730, 1188--1193)\<close>

text \<open>
  A \<open>Date\<close> is its time value, the milliseconds since 1970-01-01T00:00Z that
  \<open>getTime()\<close> returns.  A date string \<open>YYYY-MM-DD\<close> is represented by the number of
  its calendar day counted from 1970-01-01: \<open>new Date(s)\<close> reads such a string as
  midnight UTC of that day, and \<open>toISOString().slice(0, 10)\<close> gives the UTC day of a time
  value.  \<open>days_from_civil\<close> gives the day number of a date of the Gregorian calendar;
  2025-06-01 has number 20240 and 2025-07-31 has number 20300.
\<close>

definition days_from_civil :: "int \<Rightarrow> int \<Rightarrow> int \<Rightarrow> int" where
  \<comment> \<open>The number of days from 1970-01-01 to the day \<open>d\<close> of the month \<open>m\<close> of the year \<open>y\<close>.\<close>
  "days_from_civil y m d =
     (let y' = (if m \<le> 2 then y - 1 else y);
          era = y' div 400;
          yoe = y' - era * 400;
          doy = (153 * (if m > 2 then m - 3 else m + 9) + 2) div 5 + d - 1;
          doe = yoe * 365 + yoe div 4 - yoe div 100 + doy
      in era * 146097 + doe - 719468)"

definition MS_PER_DAY :: int where
  "MS_PER_DAY = 24 * 60 * 60 * 1000"

definition Date_of_string :: "int \<Rightarrow> int" where
  \<comment> \<open>\<open>new Date(s).getTime()\<close> for a date string \<open>s\<close>.\<close>
  "Date_of_string d = d * MS_PER_DAY"

definition Date_of_number :: "real \<Rightarrow> int" where
  \<comment> \<open>\<open>new Date(x).getTime()\<close> for a number \<open>x\<close>: the fraction is cut off.\<close>
  "Date_of_number x = (if 0 \<le> x then \<lfloor>x\<rfloor> else \<lceil>x\<rceil>)"

definition formatDate :: "int \<Rightarrow> int" where
  \<comment> \<open>\<open>date.toISOString().slice(0, 10)\<close>\<close>
  "formatDate t = t div MS_PER_DAY"

definition DATE_START :: int where
  \<comment> \<open>\<open>new Date('2025-06-01')\<close>\<close>
  "DATE_START = Date_of_string (days_from_civil 2025 6 1)"

definition DATE_END :: int where
  \<comment> \<open>\<open>new Date('2025-07-31')\<close>\<close>
  "DATE_END = Date_of_string (days_from_civil 2025 7 31)"

definition dateToSliderValue :: "int \<Rightarrow> int" where
  \<comment> \<open>The expression of line 29, \<open>Math.round((d.getTime() - DATE_START.getTime()) / MS_PER_DAY)\<close>,
      which the source applies to \<open>DATE_END\<close>.\<close>
  "dateToSliderValue t = Math_round (real_of_int (t - DATE_START) / real_of_int MS_PER_DAY)"

definition NUM_DAYS :: int where
  "NUM_DAYS = dateToSliderValue DATE_END"

definition sliderValueToDate :: "int \<Rightarrow> int" where
  \<comment> \<open>\<open>new Date(DATE_START.getTime() + v * MS_PER_DAY)\<close>, lines 721--722.\<close>
  "sliderValueToDate v = Date_of_number (real_of_int DATE_START + real_of_int v * real_of_int MS_PER_DAY)"

definition sliderDates :: "int \<Rightarrow> int \<Rightarrow> int \<times> int" where
  \<comment> \<open>The effect of lines 720--730: the new \<open>(startDate, endDate)\<close>.\<close>
  "sliderDates startSliderValue sliderValue =
     (formatDate (sliderValueToDate startSliderValue), formatDate (sliderValueToDate sliderValue))"

definition priorPeriod :: "int \<Rightarrow> int \<Rightarrow> int \<times> int" where
  \<comment> \<open>Lines 1189--1193: the strings \<open>(ps, pe)\<close> of the prior period.\<close>
  "priorPeriod startDate endDate =
     (let days = real_of_int (Date_of_string endDate - Date_of_string startDate) / real_of_int MS_PER_DAY;
          prevEnd = Date_of_number (real_of_int (Date_of_string startDate) - real_of_int MS_PER_DAY);
          prevStart = Date_of_number (real_of_int prevEnd - days * real_of_int MS_PER_DAY)
      in (formatDate prevStart, formatDate prevEnd))"


section \<open>Growth comparison (part 000, lines 1318--1320)\<close>

definition percentageChange :: "real \<Rightarrow> real \<Rightarrow> real" where
  "percentageChange currSum prevSum =
     (if prevSum > 0 then ((currSum - prevSum) / prevSum) * 100
      else if currSum > 0 then 100 else 0)"


section \<open>Aggregation by date (part 000, \<open>fetchData\<close>, lines 321--342)\<close>

text \<open>
  A row of \<open>aggregated_country_chain_category\<close>.  The key columns are strings; the country
  may be null (the source tests it), and so may each numeric column.
\<close>

record FactRow =
  date :: string
  country :: "string option"
  chain :: string
  category :: string
  total_requests :: "int option"
  unique_users :: "int option"
  tx_volume_usd :: "real option"

record DateBucket =
  b_date :: string
  b_chain :: string
  api_calls :: int
  b_tx_volume_usd :: real
  b_unique_users :: int
  b_country :: string
  b_category :: string

definition countryNames :: "(string \<times> string) list" where
  "countryNames =
     [(''840'', ''United States''), (''124'', ''Canada''), (''826'', ''United Kingdom''),
      (''276'', ''Germany''), (''250'', ''France''), (''36'', ''Australia''),
      (''392'', ''Japan''), (''356'', ''India''), (''156'', ''China''), (''076'', ''Brazil''),
      (''US'', ''United States''), (''CA'', ''Canada''), (''GB'', ''United Kingdom''),
      (''DE'', ''Germany''), (''FR'', ''France''), (''AU'', ''Australia''), (''JP'', ''Japan''),
      (''IN'', ''India''), (''CN'', ''China''), (''BR'', ''Brazil''), (''ES'', ''Spain''),
      (''NL'', ''Netherlands''), (''RU'', ''Russia''), (''TR'', ''Turkey''),
      (''KR'', ''South Korea''), (''NG'', ''Nigeria''), (''ZA'', ''South Africa''),
      (''NZ'', ''New Zealand'')]"

definition getCountryName :: "string \<Rightarrow> string" where
  \<comment> \<open>\<open>countryNames[isoCode] || isoCode\<close>\<close>
  "getCountryName isoCode = (case map_of countryNames isoCode of None \<Rightarrow> isoCode | Some n \<Rightarrow> n)"

definition newBucket :: "string \<Rightarrow> string option \<Rightarrow> string option \<Rightarrow> FactRow \<Rightarrow> DateBucket" where
  \<comment> \<open>The object literal of lines 326--334; null and the empty string are false in a condition.\<close>
  "newBucket selChain selectedCountry selectedCategory row =
     \<lparr>b_date = date row, b_chain = selChain, api_calls = 0, b_tx_volume_usd = 0,
      b_unique_users = 0,
      b_country = (case selectedCountry of None \<Rightarrow> ''Global''
                   | Some c \<Rightarrow> if c = [] then ''Global'' else getCountryName c),
      b_category = (case selectedCategory of None \<Rightarrow> ''All Categories''
                    | Some c \<Rightarrow> if c = [] then ''All Categories'' else c)\<rparr>"

definition addRow :: "DateBucket \<Rightarrow> FactRow \<Rightarrow> DateBucket" where
  \<comment> \<open>Lines 336--338.\<close>
  "addRow b row =
     b\<lparr>api_calls := api_calls b + or0 (total_requests row),
       b_tx_volume_usd := b_tx_volume_usd b + or0 (tx_volume_usd row),
       b_unique_users := b_unique_users b + or0 (unique_users row)\<rparr>"

definition aggregateStep ::
  "string \<Rightarrow> string option \<Rightarrow> string option \<Rightarrow> (string \<times> DateBucket) list \<Rightarrow> FactRow
     \<Rightarrow> (string \<times> DateBucket) list" where
  \<comment> \<open>The body of the \<open>forEach\<close> of lines 323--339.\<close>
  "aggregateStep selChain selectedCountry selectedCategory aggregatedData row =
     (let dateKey = date row;
          b = (case map_of aggregatedData dateKey of
                 None \<Rightarrow> newBucket selChain selectedCountry selectedCategory row
               | Some b0 \<Rightarrow> b0)
      in AList.update dateKey (addRow b row) aggregatedData)"

definition aggregateByDate ::
  "string \<Rightarrow> string option \<Rightarrow> string option \<Rightarrow> FactRow list \<Rightarrow> (string \<times> DateBucket) list" where
  \<comment> \<open>\<open>aggregatedData\<close> after lines 321--340.\<close>
  "aggregateByDate selChain selectedCountry selectedCategory data =
     (if data \<noteq> [] then foldl (aggregateStep selChain selectedCountry selectedCategory) [] data
      else [])"

definition rawData_of :: "(string \<times> DateBucket) list \<Rightarrow> DateBucket list" where
  \<comment> \<open>\<open>Object.values(aggregatedData)\<close>, line 342.\<close>
  "rawData_of aggregatedData = map snd aggregatedData"


definition bucketOf :: "FactRow list \<Rightarrow> string \<Rightarrow> DateBucket \<Rightarrow> bool" where
  \<comment> \<open>The bucket \<open>b\<close> holds, for the key \<open>k\<close>, the sums over exactly the rows of that date.\<close>
  "bucketOf rows k b =
     (b_date b = k
      \<and> api_calls b = sum_list (map (\<lambda>r. or0 (total_requests r)) (filter (\<lambda>r. date r = k) rows))
      \<and> b_unique_users b = sum_list (map (\<lambda>r. or0 (unique_users r)) (filter (\<lambda>r. date r = k) rows))
      \<and> b_tx_volume_usd b = sum_list (map (\<lambda>r. or0 (tx_volume_usd r)) (filter (\<lambda>r. date r = k) rows)))"


section \<open>Competitive rank (part 000, lines 603--620 and 681--701)\<close>






section \<open>Rank among all chains (part 000, lines 2066--2092)\<close>

definition chainTotalsStep :: "(string \<times> int) list \<Rightarrow> DateBucket \<Rightarrow> (string \<times> int) list" where
  \<comment> \<open>Lines 2070--2072.\<close>
  "chainTotalsStep chainTotals row =
     (if b_chain row \<noteq> []
      then AList.update (b_chain row) (or0 (map_of chainTotals (b_chain row)) + api_calls row) chainTotals
      else chainTotals)"

definition chainTotals_of :: "DateBucket list \<Rightarrow> string \<Rightarrow> string \<Rightarrow> (string \<times> int) list" where
  \<comment> \<open>Lines 2066--2074: the rows of the date range, summed by chain.\<close>
  "chainTotals_of rawData startDate endDate =
     foldl chainTotalsStep []
       (filter (\<lambda>row. str_le startDate (b_date row) \<and> str_le (b_date row) endDate) rawData)"

definition currentChainKey_of :: "(string \<times> int) list \<Rightarrow> string option \<Rightarrow> string" where
  \<comment> \<open>Lines 2076--2080.\<close>
  "currentChainKey_of chainTotals selChain =
     (case selChain of
        None \<Rightarrow> []
      | Some c \<Rightarrow>
          if c = [] then []
          else (case find (\<lambda>k. toLowerCase k = toLowerCase c) (map fst chainTotals) of
                  None \<Rightarrow> c
                | Some found \<Rightarrow> if found = [] then c else found))"

definition globalRank :: "(string \<times> int) list \<Rightarrow> string option \<Rightarrow> nat option" where
  \<comment> \<open>Lines 2081--2092; \<open>None\<close> is the rank \<open>'-'\<close>.\<close>
  "globalRank chainTotals selChain =
     (let currentChainKey = currentChainKey_of chainTotals selChain;
          currentTotal = or0 (map_of chainTotals currentChainKey);
          sortedTotals = sort_desc (map snd chainTotals)
      in if currentChainKey \<in> set (map fst chainTotals)
         then (if currentTotal = 0 then Some (length sortedTotals)
               else Some (1 + length (filter (\<lambda>val. val > currentTotal) sortedTotals)))
         else None)"


section \<open>Fastest growing category and country (part 000, lines 1215--1300)\<close>

text \<open>The running maximum starts at \<open>-Infinity\<close>, which is \<open>None\<close> here.\<close>

fun exceeds :: "real \<Rightarrow> real option \<Rightarrow> bool" where
  \<comment> \<open>\<open>g > fastestGrowth\<close>\<close>
  "exceeds g None = True"
| "exceeds g (Some f) = (g > f)"

definition addTotal :: "(string \<times> int) list \<Rightarrow> string \<Rightarrow> int option \<Rightarrow> (string \<times> int) list" where
  \<comment> \<open>\<open>totals[k] = (totals[k] || 0) + (row.total_requests || 0)\<close>\<close>
  "addTotal totals k req = AList.update k (or0 (map_of totals k) + or0 req) totals"

definition categoryData :: "string \<Rightarrow> FactRow list \<Rightarrow> FactRow list" where
  \<comment> \<open>Lines 1219--1220: \<open>categoryCurrData\<close> and \<open>categoryPrevData\<close>.\<close>
  "categoryData filteredByCountry data =
     (if filteredByCountry \<noteq> [] then filter (\<lambda>row. country row = Some filteredByCountry) data
      else data)"

definition categoryTotals :: "FactRow list \<Rightarrow> (string \<times> int) list" where
  \<comment> \<open>Lines 1222--1228.\<close>
  "categoryTotals rows =
     foldl (\<lambda>totals row. addTotal totals (category row) (total_requests row)) [] rows"

definition countryData :: "string \<Rightarrow> FactRow list \<Rightarrow> FactRow list" where
  \<comment> \<open>Lines 1261--1262: \<open>countryCurrData\<close> and \<open>countryPrevData\<close>.\<close>
  "countryData filteredByCategory data =
     (if filteredByCategory \<noteq> [] then filter (\<lambda>row. category row = filteredByCategory) data
      else data)"

definition countryTotals :: "FactRow list \<Rightarrow> (string \<times> int) list" where
  \<comment> \<open>Lines 1264--1274: rows with a null or empty country are skipped.\<close>
  "countryTotals rows =
     foldl (\<lambda>totals row.
              case country row of
                None \<Rightarrow> totals
              | Some c \<Rightarrow> if c = [] then totals else addTotal totals c (total_requests row)) []
       rows"

definition fastestStep ::
  "(string \<times> int) list \<Rightarrow> (string \<times> int) list \<Rightarrow> string \<times> real option \<Rightarrow> string
     \<Rightarrow> string \<times> real option" where
  \<comment> \<open>The body of the \<open>forEach\<close> of lines 1234--1251 (and 1280--1297) on the pair
      \<open>(fastestCategory, fastestGrowth)\<close>.\<close>
  "fastestStep currTotals prevTotals acc k =
     (let currTotal = or0 (map_of currTotals k);
          prevTotal = or0 (map_of prevTotals k)
      in if prevTotal > 0
         then (let growthRate = (real_of_int (currTotal - prevTotal) / real_of_int prevTotal) * 100
               in if exceeds growthRate (snd acc) then (k, Some growthRate) else acc)
         else if currTotal > 0
         then (if exceeds 100 (snd acc) then (k, Some 100) else acc)
         else acc)"

definition fastestGrowing :: "(string \<times> int) list \<Rightarrow> (string \<times> int) list \<Rightarrow> string \<times> real option" where
  "fastestGrowing currTotals prevTotals =
     foldl (fastestStep currTotals prevTotals) ([], None) (map fst currTotals)"

definition fastestGrowingCategory_of :: "string \<Rightarrow> FactRow list \<Rightarrow> FactRow list \<Rightarrow> string \<times> real option" where
  \<comment> \<open>The pair set by lines 1253--1254.\<close>
  "fastestGrowingCategory_of filteredByCountry currData prevData =
     fastestGrowing (categoryTotals (categoryData filteredByCountry currData))
       (categoryTotals (categoryData filteredByCountry prevData))"

definition fastestGrowingCountry_of :: "string \<Rightarrow> FactRow list \<Rightarrow> FactRow list \<Rightarrow> string \<times> real option" where
  \<comment> \<open>The pair set by lines 1299--1300.\<close>
  "fastestGrowingCountry_of filteredByCategory currData prevData =
     fastestGrowing (countryTotals (countryData filteredByCategory currData))
       (countryTotals (countryData filteredByCategory prevData))"

definition candidate :: "(string \<times> int) list \<Rightarrow> (string \<times> int) list \<Rightarrow> string \<times> real option \<Rightarrow> bool" where
  \<comment> \<open>What holds of the running selection: no name while the growth is \<open>-Infinity\<close>, else a
      key of the current totals with a positive prior or current total.\<close>
  "candidate currTotals prevTotals acc =
     (case snd acc of
        None \<Rightarrow> fst acc = []
      | Some g \<Rightarrow> fst acc \<in> set (map fst currTotals)
                  \<and> (or0 (map_of prevTotals (fst acc)) > 0 \<or> or0 (map_of currTotals (fst acc)) > 0))"


section \<open>Cross-filter of the growth cards (part 000, lines 261--270, 1513--1518, 1545--1548, 1568--1573, 1600--1603)\<close>

record FilterState =
  fastestGrowingCategory :: string
  fastestGrowingCountry :: string
  filteredByCategory :: string
  filteredByCountry :: string

datatype FilterEvent =
    ClickCategoryCard
  | ClickCountryCard
  | ClearCountryFilter
  | ClearCategoryFilter
  | GrowthComputed string string

definition initialFilters :: FilterState where
  "initialFilters =
     \<lparr>fastestGrowingCategory = [], fastestGrowingCountry = [], filteredByCategory = [],
      filteredByCountry = []\<rparr>"

fun filterStep :: "FilterState \<Rightarrow> FilterEvent \<Rightarrow> FilterState" where
  "filterStep s ClickCategoryCard =
     (if fastestGrowingCategory s \<noteq> []
      then s\<lparr>filteredByCategory := fastestGrowingCategory s, filteredByCountry := []\<rparr>
      else s)"
| "filterStep s ClickCountryCard =
     (if fastestGrowingCountry s \<noteq> []
      then s\<lparr>filteredByCountry := fastestGrowingCountry s, filteredByCategory := []\<rparr>
      else s)"
| "filterStep s ClearCountryFilter = s\<lparr>filteredByCountry := []\<rparr>"
| "filterStep s ClearCategoryFilter = s\<lparr>filteredByCategory := []\<rparr>"
| "filterStep s (GrowthComputed cat cntry) =
     s\<lparr>fastestGrowingCategory := cat, fastestGrowingCountry := cntry\<rparr>"

definition filterRun :: "FilterEvent list \<Rightarrow> FilterState" where
  "filterRun evs = foldl filterStep initialFilters evs"


definition exclusive :: "FilterState \<Rightarrow> bool" where
  \<comment> \<open>At most one of the two selections is set.\<close>
  "exclusive s = (filteredByCategory s = [] \<or> filteredByCountry s = [])"


section \<open>Date sliders of the Dashboard (part 000, lines 92--104 and 1460--1488)\<close>

record DashSliders =
  startSliderValue :: int
  sliderValue :: int

definition initialDashSliders :: DashSliders where
  "initialDashSliders = \<lparr>startSliderValue = 0, sliderValue = NUM_DAYS\<rparr>"

definition startOnChange :: "int \<Rightarrow> DashSliders \<Rightarrow> DashSliders" where
  \<comment> \<open>Lines 1465--1470, with \<open>newStart = parseInt(e.target.value)\<close>.\<close>
  "startOnChange newStart s =
     (if newStart < sliderValue s then s\<lparr>startSliderValue := newStart\<rparr> else s)"

definition endOnChange :: "int \<Rightarrow> DashSliders \<Rightarrow> DashSliders" where
  \<comment> \<open>Lines 1481--1486.\<close>
  "endOnChange newEnd s =
     (if newEnd > startSliderValue s then s\<lparr>sliderValue := newEnd\<rparr> else s)"

definition handleStartChange :: "int \<Rightarrow> int \<Rightarrow> int \<Rightarrow> int option" where
  \<comment> \<open>\<open>DualRangeSlider\<close>, lines 92--97: the argument passed to \<open>onStartChange\<close>, or
      \<open>None\<close> when the callback is not called.\<close>
  "handleStartChange startValue endValue newStart =
     (if newStart < endValue then Some newStart else None)"

definition handleEndChange :: "int \<Rightarrow> int \<Rightarrow> int \<Rightarrow> int option" where
  \<comment> \<open>Lines 99--104.\<close>
  "handleEndChange startValue endValue newEnd =
     (if newEnd > startValue then Some newEnd else None)"


section \<open>\<open>RangeSlider\<close> (v2 page, lines 46--144)\<close>

text \<open>
  The component keeps \<open>left\<close> and \<open>right\<close> as state and \<open>activeThumb\<close> as a ref.
  \<open>startDragging\<close> registers on \<open>window\<close> the \<open>handlePointerMove\<close> of the render in which
  the pointer went down; that function is a \<open>useCallback\<close> closure over the \<open>left\<close> and
  \<open>right\<close> of that render, and nothing registers a newer one while the drag lasts.  The
  state therefore carries, for each registered listener, the pair \<open>(left, right)\<close> it closed
  over.  \<open>onKeyDown\<close> and the track's \<open>onPointerDown\<close> are taken from the current render.
  A thumb is a child of the track, so a pointer-down on a thumb runs \<open>startDragging\<close> and
  then, bubbling, the handler of the track.  All numbers are finite reals: a step of 0 or a
  track of width 0, which give \<open>NaN\<close> in the source, are not modelled.
\<close>

record RangeSliderProps =
  rs_min :: real
  rs_max :: real
  rs_step :: real
  rs_minGap :: real
  rect_left :: real
  rect_width :: real

datatype Thumb = LeftThumb | RightThumb

datatype Key = ArrowLeft | ArrowRight | PageDown | PageUp | Home | End | OtherKey

record RangeSliderState =
  left :: real
  right :: real
  activeThumb :: "Thumb option"
  listeners :: "(real \<times> real) list"

datatype SliderEvent =
    ThumbPointerDown Thumb real
  | TrackPointerDown real
  | PointerMove real
  | PointerUp
  | KeyDown Thumb Key

definition clamp :: "real \<Rightarrow> real \<Rightarrow> real \<Rightarrow> real" where
  \<comment> \<open>\<open>Math.min(hi, Math.max(lo, v))\<close>\<close>
  "clamp v lo hi = min hi (max lo v)"

definition snap :: "RangeSliderProps \<Rightarrow> real \<Rightarrow> real" where
  \<comment> \<open>\<open>Math.round(v / step) * step\<close>\<close>
  "snap p v = real_of_int (Math_round (v / rs_step p)) * rs_step p"

definition initialSlider :: "RangeSliderProps \<Rightarrow> real \<Rightarrow> real \<Rightarrow> RangeSliderState" where
  \<comment> \<open>Lines 59--62.\<close>
  "initialSlider p defaultLeft defaultRight =
     \<lparr>left = clamp (snap p defaultLeft) (rs_min p) (rs_max p),
      right = clamp (snap p defaultRight) (rs_min p) (rs_max p),
      activeThumb = None, listeners = []\<rparr>"

definition clientXToValue :: "RangeSliderProps \<Rightarrow> real \<Rightarrow> real" where
  \<comment> \<open>Lines 68--74.\<close>
  "clientXToValue p clientX =
     (let ratio = (clientX - rect_left p) / rect_width p;
          raw = rs_min p + ratio * (rs_max p - rs_min p)
      in snap p (clamp raw (rs_min p) (rs_max p)))"

definition handlePointerMove ::
  "RangeSliderProps \<Rightarrow> real \<times> real \<Rightarrow> real \<Rightarrow> RangeSliderState \<Rightarrow> RangeSliderState" where
  \<comment> \<open>Lines 77--90, for the closure over \<open>(left, right) = c\<close>.\<close>
  "handlePointerMove p c clientX s =
     (case activeThumb s of
        None \<Rightarrow> s
      | Some LeftThumb \<Rightarrow> s\<lparr>left := clamp (clientXToValue p clientX) (rs_min p) (snd c - rs_minGap p)\<rparr>
      | Some RightThumb \<Rightarrow> s\<lparr>right := clamp (clientXToValue p clientX) (fst c + rs_minGap p) (rs_max p)\<rparr>)"

definition startDragging :: "Thumb \<Rightarrow> RangeSliderState \<Rightarrow> RangeSliderState" where
  \<comment> \<open>Lines 98--103.\<close>
  "startDragging which s =
     s\<lparr>activeThumb := Some which, listeners := listeners s @ [(left s, right s)]\<rparr>"

definition stopDragging :: "RangeSliderState \<Rightarrow> RangeSliderState" where
  \<comment> \<open>Lines 92--96: every registered \<open>stopDragging\<close> runs and removes its listener.\<close>
  "stopDragging s = s\<lparr>activeThumb := None, listeners := []\<rparr>"

definition trackPointerDown :: "RangeSliderProps \<Rightarrow> real \<Rightarrow> real \<Rightarrow> real \<Rightarrow> RangeSliderState \<Rightarrow> RangeSliderState" where
  \<comment> \<open>Lines 136--144, for the \<open>left\<close> and \<open>right\<close> of the render that handles the event.\<close>
  "trackPointerDown p l r clientX s =
     (let v = clientXToValue p clientX
      in if \<bar>v - l\<bar> \<le> \<bar>v - r\<bar>
         then s\<lparr>left := clamp v (rs_min p) (r - rs_minGap p)\<rparr>
         else s\<lparr>right := clamp v (l + rs_minGap p) (rs_max p)\<rparr>)"

definition keyTarget :: "RangeSliderProps \<Rightarrow> Thumb \<Rightarrow> Key \<Rightarrow> RangeSliderState \<Rightarrow> real option" where
  \<comment> \<open>The \<open>switch\<close> of lines 108--118; \<open>None\<close> is the \<open>default: return\<close>.\<close>
  "keyTarget p which k s =
     (let cur = (case which of LeftThumb \<Rightarrow> left s | RightThumb \<Rightarrow> right s)
      in case k of
           ArrowLeft \<Rightarrow> Some (cur - 1 * rs_step p)
         | ArrowRight \<Rightarrow> Some (cur + 1 * rs_step p)
         | PageDown \<Rightarrow> Some (cur - 1 * (rs_step p * 10))
         | PageUp \<Rightarrow> Some (cur + 1 * (rs_step p * 10))
         | Home \<Rightarrow> Some (if which = LeftThumb then rs_min p else left s + rs_minGap p)
         | End \<Rightarrow> Some (if which = RightThumb then rs_max p else right s - rs_minGap p)
         | OtherKey \<Rightarrow> None)"

definition onKeyDown :: "RangeSliderProps \<Rightarrow> Thumb \<Rightarrow> Key \<Rightarrow> RangeSliderState \<Rightarrow> RangeSliderState" where
  \<comment> \<open>Lines 106--127.\<close>
  "onKeyDown p which k s =
     (case keyTarget p which k s of
        None \<Rightarrow> s
      | Some nxt \<Rightarrow>
          (case which of
             LeftThumb \<Rightarrow> s\<lparr>left := clamp (snap p nxt) (rs_min p) (right s - rs_minGap p)\<rparr>
           | RightThumb \<Rightarrow> s\<lparr>right := clamp (snap p nxt) (left s + rs_minGap p) (rs_max p)\<rparr>))"

fun sliderStep :: "RangeSliderProps \<Rightarrow> RangeSliderState \<Rightarrow> SliderEvent \<Rightarrow> RangeSliderState" where
  "sliderStep p s (ThumbPointerDown which clientX) =
     trackPointerDown p (left s) (right s) clientX (startDragging which s)"
| "sliderStep p s (TrackPointerDown clientX) = trackPointerDown p (left s) (right s) clientX s"
| "sliderStep p s (PointerMove clientX) =
     foldl (\<lambda>s' c. handlePointerMove p c clientX s') s (listeners s)"
| "sliderStep p s PointerUp = stopDragging s"
| "sliderStep p s (KeyDown which k) = onKeyDown p which k s"

definition sliderRun :: "RangeSliderProps \<Rightarrow> RangeSliderState \<Rightarrow> SliderEvent list \<Rightarrow> RangeSliderState" where
  "sliderRun p s evs = foldl (sliderStep p) s evs"

definition ordered :: "RangeSliderProps \<Rightarrow> RangeSliderState \<Rightarrow> bool" where
  \<comment> \<open>The invariant of the slider: the gap is kept and both thumbs are inside \<open>[min, max]\<close>.\<close>
  "ordered p s =
     (left s + rs_minGap p \<le> right s \<and> rs_min p \<le> left s \<and> left s \<le> rs_max p
      \<and> rs_min p \<le> right s \<and> right s \<le> rs_max p)"

definition fresh :: "RangeSliderState \<Rightarrow> bool" where
  \<comment> \<open>Every registered listener closed over the current position of the thumb that is not dragged.\<close>
  "fresh s =
     (\<forall>c \<in> set (listeners s).
        (activeThumb s = Some LeftThumb \<longrightarrow> snd c = right s)
      \<and> (activeThumb s = Some RightThumb \<longrightarrow> fst c = left s))"


definition demoProps :: RangeSliderProps where
  \<comment> \<open>A slider from 0 to 100 with step 1 and gap 1 on a track of 100 pixels.\<close>
  "demoProps = \<lparr>rs_min = 0, rs_max = 100, rs_step = 1, rs_minGap = 1, rect_left = 0, rect_width = 100\<rparr>"

definition sixtyProps :: RangeSliderProps where
  \<comment> \<open>A slider from 0 to 60 with step 1 and gap 1 on a track of 60 pixels.\<close>
  "sixtyProps = \<lparr>rs_min = 0, rs_max = 60, rs_step = 1, rs_minGap = 1, rect_left = 0, rect_width = 60\<rparr>"


section \<open>Properties\<close>

subsection \<open>Growth comparison\<close>

text \<open>
  Claim C3.  For totals \<open>c \<ge> 0\<close> and \<open>p \<ge> 0\<close> the growth comparison is
  \<open>(c - p) / p * 100\<close> when \<open>p > 0\<close>, the fixed value 100 when \<open>p = 0\<close> and \<open>c > 0\<close>,
  and 0 when both are 0; it gives 50 for (150, 100) and -50 for (50, 100).
\<close>

theorem growth_comparison:
  assumes "0 \<le> c" and "0 \<le> p"
  shows "(p > 0 \<longrightarrow> percentageChange c p = (c - p) / p * 100)
       \<and> (p = 0 \<and> c > 0 \<longrightarrow> percentageChange c p = 100)
       \<and> (p = 0 \<and> c = 0 \<longrightarrow> percentageChange c p = 0)
       \<and> percentageChange 150 100 = 50
       \<and> percentageChange 50 100 = - 50"
  using assms by (simp add: percentageChange_def)

theorem growth_comparison_witness:
  "(0::real) \<le> 120 \<and> (0::real) \<le> 0 \<and> (0::real) \<le> 30 \<and> (0::real) < 20
     \<and> percentageChange 120 0 = 100 \<and> percentageChange 0 0 = 0
     \<and> percentageChange 30 20 = 50 \<and> percentageChange 150 100 = 50"
  using growth_comparison [of 120 0] growth_comparison [of 0 0] growth_comparison [of 30 20]
  by simp


subsection \<open>Slider values and dates\<close>

lemma DATE_START_eq: "DATE_START = Date_of_string 20240"
  by (simp add: DATE_START_def days_from_civil_def)

lemma DATE_END_eq: "DATE_END = Date_of_string 20300"
  by (simp add: DATE_END_def days_from_civil_def)

lemma days_from_civil_epoch: "days_from_civil 1970 1 1 = 0"
  by (simp add: days_from_civil_def)

lemma Date_of_number_of_int: "Date_of_number (real_of_int k) = k"
  by (simp add: Date_of_number_def)

lemma Math_round_of_int: "Math_round (real_of_int k) = k"
  by (simp add: Math_round_def)

lemma ms_div_exact: "real_of_int (k * MS_PER_DAY) / real_of_int MS_PER_DAY = real_of_int k"
  by (simp add: MS_PER_DAY_def)

lemma formatDate_Date_of_string: "formatDate (Date_of_string d) = d"
  by (simp add: formatDate_def Date_of_string_def MS_PER_DAY_def)

lemma sliderValueToDate_eq: "sliderValueToDate v = DATE_START + v * MS_PER_DAY"
proof -
  have "real_of_int DATE_START + real_of_int v * real_of_int MS_PER_DAY
          = real_of_int (DATE_START + v * MS_PER_DAY)"
    by simp
  then show ?thesis
    unfolding sliderValueToDate_def by (simp only: Date_of_number_of_int)
qed

lemma sliderValueToDate_string: "sliderValueToDate v = Date_of_string (20240 + v)"
  by (simp add: sliderValueToDate_eq DATE_START_eq Date_of_string_def algebra_simps)

lemma dateToSliderValue_string: "dateToSliderValue (Date_of_string d) = d - 20240"
proof -
  have "Date_of_string d - DATE_START = (d - 20240) * MS_PER_DAY"
    by (simp add: DATE_START_eq Date_of_string_def algebra_simps)
  then show ?thesis
    unfolding dateToSliderValue_def by (simp only: ms_div_exact Math_round_of_int)
qed

lemma NUM_DAYS_eq: "NUM_DAYS = 60"
  by (simp add: NUM_DAYS_def DATE_END_eq dateToSliderValue_string)

lemma initial_dates:
  "sliderDates (startSliderValue initialDashSliders) (sliderValue initialDashSliders)
     = (formatDate DATE_START, formatDate DATE_END)"
  by (simp add: sliderDates_def initialDashSliders_def sliderValueToDate_string NUM_DAYS_eq
      DATE_START_eq DATE_END_eq formatDate_Date_of_string)

text \<open>
  Claim C9.  For every slider value \<open>v\<close> in \<open>[0, NUM_DAYS]\<close> the date of the slider is
  \<open>DATE_START\<close> plus \<open>v\<close> days, and converting it back with the rounding quotient of
  line 29 returns \<open>v\<close>, also through the date string; for every calendar day \<open>d\<close> from
  \<open>DATE_START\<close> to \<open>DATE_START + NUM_DAYS\<close> the conversion to a slider value and back
  returns \<open>d\<close>.  Both directions use \<open>DATE_START\<close>, and \<open>NUM_DAYS\<close> is 60.
\<close>

theorem slider_date_roundtrip:
  assumes "0 \<le> v" and "v \<le> NUM_DAYS"
    and "formatDate DATE_START \<le> d" and "d \<le> formatDate DATE_START + NUM_DAYS"
  shows "sliderValueToDate v = DATE_START + v * MS_PER_DAY
       \<and> dateToSliderValue (sliderValueToDate v) = v
       \<and> dateToSliderValue (Date_of_string (formatDate (sliderValueToDate v))) = v
       \<and> sliderValueToDate (dateToSliderValue (Date_of_string d)) = Date_of_string d
       \<and> formatDate (sliderValueToDate (dateToSliderValue (Date_of_string d))) = d
       \<and> NUM_DAYS = 60"
proof -
  have "sliderValueToDate (d - 20240) = Date_of_string d"
    by (simp add: sliderValueToDate_string)
  then show ?thesis
    by (simp add: sliderValueToDate_eq [symmetric] NUM_DAYS_eq dateToSliderValue_string
        formatDate_Date_of_string)
      (simp add: sliderValueToDate_string dateToSliderValue_string formatDate_Date_of_string)
qed

theorem slider_date_roundtrip_witness:
  "(0::int) \<le> 17 \<and> 17 \<le> NUM_DAYS \<and> formatDate DATE_START \<le> 20257
     \<and> 20257 \<le> formatDate DATE_START + NUM_DAYS
     \<and> dateToSliderValue (sliderValueToDate 17) = 17
     \<and> sliderValueToDate (dateToSliderValue (Date_of_string 20257)) = Date_of_string 20257"
proof -
  have h: "(0::int) \<le> 17" "17 \<le> NUM_DAYS" "formatDate DATE_START \<le> 20257"
    "20257 \<le> formatDate DATE_START + NUM_DAYS"
    by (simp_all add: NUM_DAYS_eq DATE_START_eq formatDate_Date_of_string)
  from slider_date_roundtrip [OF h] h show ?thesis by blast
qed

subsection \<open>Prior period\<close>

lemma priorPeriod_eq:
  "priorPeriod startDate endDate = (startDate - 1 - (endDate - startDate), startDate - 1)"
proof -
  have d: "real_of_int (Date_of_string endDate - Date_of_string startDate) / real_of_int MS_PER_DAY
            = real_of_int (endDate - startDate)"
    using ms_div_exact [of "endDate - startDate"]
    by (simp add: Date_of_string_def algebra_simps)
  have e: "real_of_int (Date_of_string startDate) - real_of_int MS_PER_DAY
            = real_of_int (Date_of_string (startDate - 1))"
    by (simp add: Date_of_string_def algebra_simps)
  have s: "real_of_int (Date_of_string (startDate - 1)) - real_of_int (endDate - startDate) * real_of_int MS_PER_DAY
            = real_of_int (Date_of_string (startDate - 1 - (endDate - startDate)))"
    by (simp add: Date_of_string_def algebra_simps)
  show ?thesis
    unfolding priorPeriod_def Let_def d e Date_of_number_of_int s
    by (simp only: formatDate_Date_of_string)
qed

text \<open>
  Claim C4.  For a date range with \<open>startDate \<le> endDate\<close> the prior period ends on the day
  before \<open>startDate\<close> and starts \<open>endDate - startDate\<close> days before its end: it is as long
  as the current period, lies before it and ends on the day before it starts.
\<close>

theorem prior_period:
  assumes "startDate \<le> endDate"
  shows "snd (priorPeriod startDate endDate) = startDate - 1
       \<and> fst (priorPeriod startDate endDate) = snd (priorPeriod startDate endDate) - (endDate - startDate)
       \<and> snd (priorPeriod startDate endDate) - fst (priorPeriod startDate endDate) = endDate - startDate
       \<and> fst (priorPeriod startDate endDate) \<le> snd (priorPeriod startDate endDate)
       \<and> snd (priorPeriod startDate endDate) < startDate
       \<and> snd (priorPeriod startDate endDate) + 1 = startDate"
  using assms by (simp add: priorPeriod_eq)

theorem prior_period_witness:
  "(20240::int) \<le> 20300 \<and> priorPeriod 20240 20300 = (20179, 20239)"
  using prior_period [of 20240 20300] by (simp add: prod_eq_iff)


subsection \<open>Cross-filter\<close>

lemma filterStep_exclusive: "exclusive s \<Longrightarrow> exclusive (filterStep s ev)"
  by (cases ev) (auto simp: exclusive_def)

lemma foldl_filterStep_exclusive: "exclusive s \<Longrightarrow> exclusive (foldl filterStep s evs)"
  by (induction evs arbitrary: s) (simp_all add: filterStep_exclusive)

text \<open>
  Claim C5.  After any sequence of card clicks, filter clearings and recomputations of the
  fastest growing names, starting from the initial state, at most one of
  \<open>filteredByCategory\<close> and \<open>filteredByCountry\<close> is set; a click on a card with a name sets
  its selection and clears the other one, and clearing one selection leaves the other as
  it was.
\<close>

theorem cross_filter_exclusive:
  "(filteredByCategory (filterRun evs) = [] \<or> filteredByCountry (filterRun evs) = [])
   \<and> (fastestGrowingCategory (filterRun evs) \<noteq> [] \<longrightarrow>
        filteredByCategory (filterStep (filterRun evs) ClickCategoryCard) = fastestGrowingCategory (filterRun evs)
        \<and> filteredByCountry (filterStep (filterRun evs) ClickCategoryCard) = [])
   \<and> (fastestGrowingCountry (filterRun evs) \<noteq> [] \<longrightarrow>
        filteredByCountry (filterStep (filterRun evs) ClickCountryCard) = fastestGrowingCountry (filterRun evs)
        \<and> filteredByCategory (filterStep (filterRun evs) ClickCountryCard) = [])
   \<and> filteredByCategory (filterStep (filterRun evs) ClearCountryFilter) = filteredByCategory (filterRun evs)
   \<and> filteredByCountry (filterStep (filterRun evs) ClearCountryFilter) = []
   \<and> filteredByCountry (filterStep (filterRun evs) ClearCategoryFilter) = filteredByCountry (filterRun evs)
   \<and> filteredByCategory (filterStep (filterRun evs) ClearCategoryFilter) = []"
proof -
  have "exclusive initialFilters"
    by (simp add: exclusive_def initialFilters_def)
  then have "exclusive (filterRun evs)"
    unfolding filterRun_def by (rule foldl_filterStep_exclusive)
  then show ?thesis
    by (simp add: exclusive_def)
qed

theorem cross_filter_exclusive_witness:
  "filterRun [GrowthComputed ''defi'' ''US'', ClickCountryCard]
     = \<lparr>fastestGrowingCategory = ''defi'', fastestGrowingCountry = ''US'',
        filteredByCategory = [], filteredByCountry = ''US''\<rparr>
   \<and> filteredByCategory (filterStep (filterRun [GrowthComputed ''defi'' ''US'', ClickCountryCard]) ClickCategoryCard) = ''defi''
   \<and> filteredByCountry (filterStep (filterRun [GrowthComputed ''defi'' ''US'', ClickCountryCard]) ClickCategoryCard) = []"
  using cross_filter_exclusive [of "[GrowthComputed ''defi'' ''US'', ClickCountryCard]"]
  by (simp add: filterRun_def initialFilters_def)


subsection \<open>Competitive rank\<close>










subsection \<open>Rank among all chains\<close>

lemma length_sort_desc: "length (sort_desc vs) = length vs"
  by (simp add: sort_desc_def)

lemma filter_sort_desc: "length (filter P (sort_desc vs)) = length (filter P vs)"
  by (simp add: sort_desc_def filter_sort)

lemma currentChainKey_no_match:
  assumes "\<forall>k \<in> set (map fst chainTotals). toLowerCase k \<noteq> toLowerCase c"
  shows "currentChainKey_of chainTotals (Some c) \<notin> set (map fst chainTotals)"
proof -
  have "find (\<lambda>k. toLowerCase k = toLowerCase c) (map fst chainTotals) = None"
    using assms by (simp add: find_None_iff)
  then have "currentChainKey_of chainTotals (Some c) = c"
    by (simp add: currentChainKey_of_def)
  moreover have "c \<notin> set (map fst chainTotals)"
    using assms by blast
  ultimately show ?thesis by simp
qed

text \<open>
  Claim C8, as the code has it.  When the key of the selected chain is among the chain
  totals and its total is 0, the rank is the number of chains, which is more than the
  number of chains with a positive total; when the key is there with another total, the rank
  is one plus the number of greater totals; when the key is not among the totals, and so
  whenever no key equals the selected chain up to case, the rank is \<open>'-'\<close>.
\<close>

theorem global_rank:
  "(currentChainKey_of chainTotals selChain \<in> set (map fst chainTotals)
      \<and> or0 (map_of chainTotals (currentChainKey_of chainTotals selChain)) = 0
     \<longrightarrow> globalRank chainTotals selChain = Some (length chainTotals)
         \<and> length (filter (\<lambda>v. v > 0) (map snd chainTotals)) < length chainTotals)
   \<and> (currentChainKey_of chainTotals selChain \<in> set (map fst chainTotals)
      \<and> or0 (map_of chainTotals (currentChainKey_of chainTotals selChain)) \<noteq> 0
     \<longrightarrow> globalRank chainTotals selChain
          = Some (1 + length (filter (\<lambda>v. v > or0 (map_of chainTotals (currentChainKey_of chainTotals selChain)))
                                (map snd chainTotals))))
   \<and> (currentChainKey_of chainTotals selChain \<notin> set (map fst chainTotals)
     \<longrightarrow> globalRank chainTotals selChain = None)
   \<and> ((\<forall>k \<in> set (map fst chainTotals). toLowerCase k \<noteq> toLowerCase c)
     \<longrightarrow> globalRank chainTotals (Some c) = None)"
proof -
  let ?k = "currentChainKey_of chainTotals selChain"
  have a: "?k \<in> set (map fst chainTotals) \<and> or0 (map_of chainTotals ?k) = 0
     \<longrightarrow> globalRank chainTotals selChain = Some (length chainTotals)
         \<and> length (filter (\<lambda>v. v > 0) (map snd chainTotals)) < length chainTotals"
  proof (intro impI conjI)
    assume h: "?k \<in> set (map fst chainTotals) \<and> or0 (map_of chainTotals ?k) = 0"
    then show "globalRank chainTotals selChain = Some (length chainTotals)"
      by (simp add: globalRank_def Let_def length_sort_desc)
    from h obtain v where v: "map_of chainTotals ?k = Some v"
      by (cases "map_of chainTotals ?k") (auto simp: map_of_eq_None_iff)
    with h have "v = 0" by simp
    with v have "(?k, 0) \<in> set chainTotals"
      by (simp add: map_of_SomeD)
    then have "0 \<in> set (map snd chainTotals)"
      by force
    then have "length (filter (\<lambda>v. v > 0) (map snd chainTotals)) < length (map snd chainTotals)"
      by (intro length_filter_less [of 0]) simp_all
    then show "length (filter (\<lambda>v. v > 0) (map snd chainTotals)) < length chainTotals"
      by simp
  qed
  have b: "?k \<in> set (map fst chainTotals) \<and> or0 (map_of chainTotals ?k) \<noteq> 0
     \<longrightarrow> globalRank chainTotals selChain
          = Some (1 + length (filter (\<lambda>v. v > or0 (map_of chainTotals ?k)) (map snd chainTotals)))"
    by (simp add: globalRank_def Let_def filter_sort_desc)
  have c: "?k \<notin> set (map fst chainTotals) \<longrightarrow> globalRank chainTotals selChain = None"
    by (simp add: globalRank_def Let_def)
  have d: "(\<forall>k \<in> set (map fst chainTotals). toLowerCase k \<noteq> toLowerCase c)
     \<longrightarrow> globalRank chainTotals (Some c) = None"
  proof
    assume "\<forall>k \<in> set (map fst chainTotals). toLowerCase k \<noteq> toLowerCase c"
    then have "currentChainKey_of chainTotals (Some c) \<notin> set (map fst chainTotals)"
      by (rule currentChainKey_no_match)
    then show "globalRank chainTotals (Some c) = None"
      by (simp add: globalRank_def Let_def)
  qed
  from a b c d show ?thesis
    by (intro conjI)
qed

lemma chainTotals_empty: "chainTotals_of [] startDate endDate = []"
  by (simp add: chainTotals_of_def)

lemma chainTotals_single:
  "chainTotals_of
     [\<lparr>b_date = ''2025-06-01'', b_chain = ''ethereum'', api_calls = 100, b_tx_volume_usd = 10,
        b_unique_users = 10, b_country = ''Global'', b_category = ''All Categories''\<rparr>,
      \<lparr>b_date = ''2025-06-02'', b_chain = ''ethereum'', api_calls = 5, b_tx_volume_usd = 2,
        b_unique_users = 0, b_country = ''Global'', b_category = ''All Categories''\<rparr>,
      \<lparr>b_date = ''2025-08-02'', b_chain = ''ethereum'', api_calls = 7, b_tx_volume_usd = 2,
        b_unique_users = 0, b_country = ''Global'', b_category = ''All Categories''\<rparr>]
     ''2025-06-01'' ''2025-07-31'' = [(''ethereum'', 105)]"
  by (simp add: chainTotals_of_def chainTotalsStep_def)

lemma toLowerCase_samples:
  "toLowerCase ''ethereum'' = ''ethereum''" "toLowerCase ''Ethereum'' = ''ethereum''"
  "toLowerCase ''polygon'' = ''polygon''" "toLowerCase ''solana'' = ''solana''"
  by (simp_all add: toLowerCase_def toLowerCase_char_def)

text \<open>
  Claim C8 as stated fails: a selected chain without an entry among the totals gets the
  rank \<open>'-'\<close>, not the number of chains.
\<close>

theorem global_rank_absent_counterexample:
  "globalRank [(''polygon'', 5)] (Some ''ethereum'') = None
   \<and> globalRank [(''polygon'', 5)] (Some ''ethereum'') \<noteq> Some (length [(''polygon'', 5 :: int)])
   \<and> globalRank (chainTotals_of [] ''2025-06-01'' ''2025-07-31'') (Some ''ethereum'') = None"
  by (simp add: globalRank_def currentChainKey_of_def toLowerCase_samples chainTotals_empty)

theorem global_rank_witness:
  "globalRank [(''Ethereum'', 0), (''polygon'', 5)] (Some ''ethereum'') = Some 2
   \<and> globalRank [(''Ethereum'', 7), (''polygon'', 9), (''solana'', 7)] (Some ''ethereum'') = Some 2
   \<and> globalRank [(''polygon'', 5)] (Some ''ethereum'') = None"
proof -
  let ?a = "[(''Ethereum'', 0 :: int), (''polygon'', 5)]"
  let ?b = "[(''Ethereum'', 7 :: int), (''polygon'', 9), (''solana'', 7)]"
  let ?c = "[(''polygon'', 5 :: int)]"
  have ka: "currentChainKey_of ?a (Some ''ethereum'') = ''Ethereum''"
    by (simp add: currentChainKey_of_def toLowerCase_samples)
  have kb: "currentChainKey_of ?b (Some ''ethereum'') = ''Ethereum''"
    by (simp add: currentChainKey_of_def toLowerCase_samples)
  have kc: "\<forall>k \<in> set (map fst ?c). toLowerCase k \<noteq> toLowerCase ''ethereum''"
    by (simp add: toLowerCase_samples)
  from global_rank [of ?a "Some ''ethereum''" "''x''"] ka
  have "globalRank ?a (Some ''ethereum'') = Some 2"
    by simp
  moreover from global_rank [of ?b "Some ''ethereum''" "''x''"] kb
  have "globalRank ?b (Some ''ethereum'') = Some 2"
    by simp
  moreover from global_rank [of ?c "Some ''ethereum''" "''ethereum''"] kc
  have "globalRank ?c (Some ''ethereum'') = None"
    by blast
  ultimately show ?thesis
    by simp
qed


subsection \<open>Fastest growing category and country\<close>

lemma keys_addTotal: "fst ` set (addTotal totals k req) = insert k (fst ` set totals)"
proof -
  have "set (map fst (addTotal totals k req)) = insert k (set (map fst totals))"
    by (auto simp: addTotal_def update_keys)
  then show ?thesis by simp
qed

lemma keys_categoryTotals_fold:
  "fst ` set (foldl (\<lambda>totals row. addTotal totals (category row) (total_requests row)) acc rows)
     = fst ` set acc \<union> category ` set rows"
proof (induction rows arbitrary: acc)
  case Nil
  then show ?case by simp
next
  case (Cons row rows)
  show ?case
    unfolding foldl_Cons Cons.IH keys_addTotal by auto
qed

lemma keys_countryTotals_fold:
  "fst ` set (foldl (\<lambda>totals row.
              case country row of
                None \<Rightarrow> totals
              | Some c \<Rightarrow> if c = [] then totals else addTotal totals c (total_requests row)) acc rows)
     = fst ` set acc \<union> {c. c \<noteq> [] \<and> Some c \<in> country ` set rows}"
proof (induction rows arbitrary: acc)
  case Nil
  then show ?case by simp
next
  case (Cons row rows)
  show ?case
  proof (cases "country row")
    case None
    then show ?thesis
      unfolding foldl_Cons Cons.IH by auto
  next
    case (Some c)
    then show ?thesis
      unfolding foldl_Cons Cons.IH by (cases "c = []") (auto simp: keys_addTotal)
  qed
qed

lemma fastestStep_candidate:
  assumes "candidate currTotals prevTotals acc" and "k \<in> set (map fst currTotals)"
  shows "candidate currTotals prevTotals (fastestStep currTotals prevTotals acc k)"
  using assms by (auto simp: candidate_def fastestStep_def Let_def split: option.splits)

lemma fastest_fold_candidate:
  assumes "candidate currTotals prevTotals acc" and "set ks \<subseteq> set (map fst currTotals)"
  shows "candidate currTotals prevTotals (foldl (fastestStep currTotals prevTotals) acc ks)"
  using assms
proof (induction ks arbitrary: acc)
  case Nil
  then show ?case by simp
next
  case (Cons k ks)
  from Cons.prems have "candidate currTotals prevTotals (fastestStep currTotals prevTotals acc k)"
    by (intro fastestStep_candidate) simp_all
  with Cons show ?case by simp
qed

lemma fastestStep_skip:
  "\<not> or0 (map_of prevTotals k) > 0 \<Longrightarrow> \<not> or0 (map_of currTotals k) > 0
     \<Longrightarrow> fastestStep currTotals prevTotals acc k = acc"
  by (simp add: fastestStep_def)

lemma fastest_fold_skip:
  "\<forall>k \<in> set ks. \<not> or0 (map_of prevTotals k) > 0 \<and> \<not> or0 (map_of currTotals k) > 0
     \<Longrightarrow> foldl (fastestStep currTotals prevTotals) acc ks = acc"
  by (induction ks arbitrary: acc) (simp_all add: fastestStep_skip)

lemma fastestGrowing_candidate: "candidate currTotals prevTotals (fastestGrowing currTotals prevTotals)"
  unfolding fastestGrowing_def
  by (rule fastest_fold_candidate) (simp_all add: candidate_def)

lemma fastestGrowing_none:
  "\<forall>k \<in> set (map fst currTotals). \<not> or0 (map_of prevTotals k) > 0 \<and> \<not> or0 (map_of currTotals k) > 0
     \<Longrightarrow> fastestGrowing currTotals prevTotals = ([], None)"
  unfolding fastestGrowing_def by (rule fastest_fold_skip)


lemma map_of_addTotal:
  "map_of (addTotal totals k req) k' = (if k' = k then Some (or0 (map_of totals k) + or0 req) else map_of totals k')"
  by (simp add: addTotal_def update_conv')

lemma total_categoryTotals_fold:
  "or0 (map_of (foldl (\<lambda>totals row. addTotal totals (category row) (total_requests row)) acc rows) k)
     = or0 (map_of acc k) + sum_list (map (\<lambda>r. or0 (total_requests r)) (filter (\<lambda>r. category r = k) rows))"
proof (induction rows arbitrary: acc)
  case Nil
  then show ?case by simp
next
  case (Cons row rows)
  show ?case
    unfolding foldl_Cons Cons.IH by (simp add: map_of_addTotal)
qed

lemma total_countryTotals_fold:
  "k \<noteq> [] \<Longrightarrow>
   or0 (map_of (foldl (\<lambda>totals row.
              case country row of
                None \<Rightarrow> totals
              | Some c \<Rightarrow> if c = [] then totals else addTotal totals c (total_requests row)) acc rows) k)
     = or0 (map_of acc k) + sum_list (map (\<lambda>r. or0 (total_requests r)) (filter (\<lambda>r. country r = Some k) rows))"
proof (induction rows arbitrary: acc)
  case Nil
  then show ?case by simp
next
  case (Cons row rows)
  show ?case
  proof (cases "country row")
    case None
    then show ?thesis
      unfolding foldl_Cons Cons.IH [OF Cons.prems] by simp
  next
    case (Some c)
    with Cons.prems show ?thesis
      unfolding foldl_Cons Cons.IH [OF Cons.prems] by (cases "c = []") (auto simp: map_of_addTotal)
  qed
qed

lemma categoryTotals_sum:
  "or0 (map_of (categoryTotals rows) k)
     = sum_list (map (\<lambda>r. or0 (total_requests r)) (filter (\<lambda>r. category r = k) rows))"
  by (simp add: categoryTotals_def total_categoryTotals_fold)

lemma countryTotals_sum:
  "k \<noteq> [] \<Longrightarrow> or0 (map_of (countryTotals rows) k)
     = sum_list (map (\<lambda>r. or0 (total_requests r)) (filter (\<lambda>r. country r = Some k) rows))"
  by (simp add: countryTotals_def total_countryTotals_fold)

lemma keys_categoryTotals: "set (map fst (categoryTotals rows)) = category ` set rows"
  by (simp add: categoryTotals_def keys_categoryTotals_fold)

lemma keys_countryTotals:
  "set (map fst (countryTotals rows)) = {c. c \<noteq> [] \<and> Some c \<in> country ` set rows}"
  by (simp add: countryTotals_def keys_countryTotals_fold)

text \<open>
  Claim C10.  The selection of the fastest growing category yields the empty name exactly
  with the growth \<open>-Infinity\<close>; a selected name is the category of a row of the current
  period (after the country filter) and has a positive prior total or a positive current
  total, so that a category with both totals 0, and one with prior rows only, is never
  selected; and when no category of the current rows has a positive total in either
  period, the result is the empty name with \<open>-Infinity\<close>.  The same holds for the
  fastest growing country.  The totals are the sums of \<open>total_requests\<close> over the rows of
  the key (\<open>categoryTotals_sum\<close>, \<open>countryTotals_sum\<close>).
\<close>

theorem fastest_growing_candidates:
  "(snd (fastestGrowingCategory_of byCountry currData prevData) = None
      \<longrightarrow> fst (fastestGrowingCategory_of byCountry currData prevData) = [])
   \<and> (snd (fastestGrowingCategory_of byCountry currData prevData) \<noteq> None
      \<longrightarrow> fst (fastestGrowingCategory_of byCountry currData prevData) \<in> category ` set (categoryData byCountry currData)
        \<and> (or0 (map_of (categoryTotals (categoryData byCountry prevData)) (fst (fastestGrowingCategory_of byCountry currData prevData))) > 0
           \<or> or0 (map_of (categoryTotals (categoryData byCountry currData)) (fst (fastestGrowingCategory_of byCountry currData prevData))) > 0))
   \<and> ((\<forall>k \<in> category ` set (categoryData byCountry currData).
          \<not> or0 (map_of (categoryTotals (categoryData byCountry prevData)) k) > 0
          \<and> \<not> or0 (map_of (categoryTotals (categoryData byCountry currData)) k) > 0)
      \<longrightarrow> fastestGrowingCategory_of byCountry currData prevData = ([], None))
   \<and> (snd (fastestGrowingCountry_of byCategory currData prevData) = None
      \<longrightarrow> fst (fastestGrowingCountry_of byCategory currData prevData) = [])
   \<and> (snd (fastestGrowingCountry_of byCategory currData prevData) \<noteq> None
      \<longrightarrow> Some (fst (fastestGrowingCountry_of byCategory currData prevData)) \<in> country ` set (countryData byCategory currData)
        \<and> (or0 (map_of (countryTotals (countryData byCategory prevData)) (fst (fastestGrowingCountry_of byCategory currData prevData))) > 0
           \<or> or0 (map_of (countryTotals (countryData byCategory currData)) (fst (fastestGrowingCountry_of byCategory currData prevData))) > 0))
   \<and> ((\<forall>k \<in> set (map fst (countryTotals (countryData byCategory currData))).
          \<not> or0 (map_of (countryTotals (countryData byCategory prevData)) k) > 0
          \<and> \<not> or0 (map_of (countryTotals (countryData byCategory currData)) k) > 0)
      \<longrightarrow> fastestGrowingCountry_of byCategory currData prevData = ([], None))"
proof -
  let ?cc = "categoryTotals (categoryData byCountry currData)"
  let ?cp = "categoryTotals (categoryData byCountry prevData)"
  let ?rc = "fastestGrowingCategory_of byCountry currData prevData"
  let ?nc = "countryTotals (countryData byCategory currData)"
  let ?np = "countryTotals (countryData byCategory prevData)"
  let ?rn = "fastestGrowingCountry_of byCategory currData prevData"
  have c: "candidate ?cc ?cp ?rc"
    unfolding fastestGrowingCategory_of_def by (rule fastestGrowing_candidate)
  have n: "candidate ?nc ?np ?rn"
    unfolding fastestGrowingCountry_of_def by (rule fastestGrowing_candidate)
  have c1: "snd ?rc = None \<longrightarrow> fst ?rc = []"
    using c by (simp add: candidate_def split: option.splits)
  have c2: "snd ?rc \<noteq> None \<longrightarrow> fst ?rc \<in> category ` set (categoryData byCountry currData)
        \<and> (or0 (map_of ?cp (fst ?rc)) > 0 \<or> or0 (map_of ?cc (fst ?rc)) > 0)"
    using c keys_categoryTotals [of "categoryData byCountry currData"]
    by (auto simp: candidate_def split: option.splits)
  have c3: "(\<forall>k \<in> category ` set (categoryData byCountry currData).
          \<not> or0 (map_of ?cp k) > 0 \<and> \<not> or0 (map_of ?cc k) > 0) \<longrightarrow> ?rc = ([], None)"
    unfolding fastestGrowingCategory_of_def keys_categoryTotals [symmetric]
    using fastestGrowing_none [of ?cc ?cp] by blast
  have n1: "snd ?rn = None \<longrightarrow> fst ?rn = []"
    using n by (simp add: candidate_def split: option.splits)
  have n2: "snd ?rn \<noteq> None \<longrightarrow> Some (fst ?rn) \<in> country ` set (countryData byCategory currData)
        \<and> (or0 (map_of ?np (fst ?rn)) > 0 \<or> or0 (map_of ?nc (fst ?rn)) > 0)"
    using n keys_countryTotals [of "countryData byCategory currData"]
    by (auto simp: candidate_def split: option.splits)
  have n3: "(\<forall>k \<in> set (map fst ?nc).
          \<not> or0 (map_of ?np k) > 0 \<and> \<not> or0 (map_of ?nc k) > 0) \<longrightarrow> ?rn = ([], None)"
    unfolding fastestGrowingCountry_of_def
    using fastestGrowing_none [of ?nc ?np] by blast
  from c1 c2 c3 n1 n2 n3 show ?thesis
    by (intro conjI)
qed

theorem fastest_growing_candidates_witness:
  "fastestGrowingCategory_of []
     [\<lparr>date = ''2025-06-02'', country = Some ''US'', chain = ''ethereum'', category = ''defi'',
        total_requests = Some 100, unique_users = None, tx_volume_usd = None\<rparr>,
      \<lparr>date = ''2025-06-02'', country = Some ''US'', chain = ''ethereum'', category = ''nft'',
        total_requests = None, unique_users = None, tx_volume_usd = None\<rparr>]
     [\<lparr>date = ''2025-06-01'', country = Some ''US'', chain = ''ethereum'', category = ''defi'',
        total_requests = Some 50, unique_users = None, tx_volume_usd = None\<rparr>,
      \<lparr>date = ''2025-06-01'', country = Some ''US'', chain = ''ethereum'', category = ''bridge'',
        total_requests = Some 500, unique_users = None, tx_volume_usd = None\<rparr>]
     = (''defi'', Some 100)
   \<and> fastestGrowingCategory_of []
     [\<lparr>date = ''2025-06-02'', country = Some ''US'', chain = ''ethereum'', category = ''nft'',
        total_requests = None, unique_users = None, tx_volume_usd = None\<rparr>]
     [\<lparr>date = ''2025-06-01'', country = Some ''US'', chain = ''ethereum'', category = ''bridge'',
        total_requests = Some 500, unique_users = None, tx_volume_usd = None\<rparr>]
     = ([], None)"
proof -
  let ?defi = "\<lparr>date = ''2025-06-02'', country = Some ''US'', chain = ''ethereum'', category = ''defi'',
        total_requests = Some 100, unique_users = None, tx_volume_usd = None\<rparr>"
  let ?nft = "\<lparr>date = ''2025-06-02'', country = Some ''US'', chain = ''ethereum'', category = ''nft'',
        total_requests = None, unique_users = None, tx_volume_usd = None\<rparr>"
  let ?defiPrev = "\<lparr>date = ''2025-06-01'', country = Some ''US'', chain = ''ethereum'', category = ''defi'',
        total_requests = Some 50, unique_users = None, tx_volume_usd = None\<rparr>"
  let ?bridgePrev = "\<lparr>date = ''2025-06-01'', country = Some ''US'', chain = ''ethereum'', category = ''bridge'',
        total_requests = Some 500, unique_users = None, tx_volume_usd = None\<rparr>"
  have a: "fastestGrowingCategory_of [] [?defi, ?nft] [?defiPrev, ?bridgePrev] = (''defi'', Some 100)"
    by (simp add: fastestGrowingCategory_of_def fastestGrowing_def fastestStep_def categoryTotals_def
        categoryData_def addTotal_def Let_def)
  have b: "\<forall>k \<in> category ` set (categoryData [] [?nft]).
          \<not> or0 (map_of (categoryTotals (categoryData [] [?bridgePrev])) k) > 0
          \<and> \<not> or0 (map_of (categoryTotals (categoryData [] [?nft])) k) > 0"
    by (simp add: categoryTotals_def categoryData_def addTotal_def)
  from fastest_growing_candidates [of "[]" "[?nft]" "[?bridgePrev]" "[]"] b
  have "fastestGrowingCategory_of [] [?nft] [?bridgePrev] = ([], None)"
    by blast
  moreover from fastest_growing_candidates [of "[]" "[?defi, ?nft]" "[?defiPrev, ?bridgePrev]" "[]"] a
  have "fst (fastestGrowingCategory_of [] [?defi, ?nft] [?defiPrev, ?bridgePrev])
          \<in> category ` set (categoryData [] [?defi, ?nft])"
    by simp
  ultimately show ?thesis
    using a by simp
qed


subsection \<open>Aggregation by date\<close>

lemma aggregateByDate_foldl:
  "aggregateByDate selChain selCountry selCategory data
     = foldl (aggregateStep selChain selCountry selCategory) [] data"
  by (simp add: aggregateByDate_def)

lemma map_of_aggregateStep:
  "map_of (aggregateStep selChain selCountry selCategory agg row) k =
     (if k = date row
      then Some (addRow (case map_of agg (date row) of
                           None \<Rightarrow> newBucket selChain selCountry selCategory row
                         | Some b0 \<Rightarrow> b0) row)
      else map_of agg k)"
  by (simp add: aggregateStep_def Let_def update_conv')

lemma distinct_aggregateStep:
  "distinct (map fst agg) \<Longrightarrow> distinct (map fst (aggregateStep selChain selCountry selCategory agg row))"
  by (simp add: aggregateStep_def Let_def distinct_update)

lemma distinct_aggregate_fold:
  "distinct (map fst agg) \<Longrightarrow> distinct (map fst (foldl (aggregateStep selChain selCountry selCategory) agg data))"
  by (induction data arbitrary: agg) (simp_all add: distinct_aggregateStep)

lemma filter_date_absent: "k \<notin> date ` set rows \<Longrightarrow> filter (\<lambda>r. date r = k) rows = []"
  by (auto simp: filter_empty_conv)

lemma aggregate_fold_buckets:
  "(map_of (foldl (aggregateStep selChain selCountry selCategory) [] data) k = None \<longleftrightarrow> k \<notin> date ` set data)
   \<and> (\<forall>b. map_of (foldl (aggregateStep selChain selCountry selCategory) [] data) k = Some b
          \<longrightarrow> bucketOf data k b)"
proof (induction data rule: rev_induct)
  case Nil
  then show ?case by simp
next
  case (snoc row rows)
  let ?agg = "foldl (aggregateStep selChain selCountry selCategory) [] rows"
  show ?case
  proof (cases "k = date row")
    case False
    with snoc show ?thesis
      by (simp add: map_of_aggregateStep bucketOf_def)
  next
    case True
    show ?thesis
    proof (cases "map_of ?agg k")
      case None
      with snoc have "k \<notin> date ` set rows" by simp
      then have "filter (\<lambda>r. date r = k) rows = []"
        by (rule filter_date_absent)
      with True None show ?thesis
        by (simp add: map_of_aggregateStep bucketOf_def addRow_def newBucket_def)
    next
      case (Some b0)
      with snoc have "bucketOf rows k b0" by simp
      with True Some show ?thesis
        by (simp add: map_of_aggregateStep bucketOf_def addRow_def)
    qed
  qed
qed

lemma sum_update:
  fixes f :: "'v \<Rightarrow> 'a::ab_group_add"
  shows "sum_list (map (\<lambda>p. f (snd p)) (AList.update k v al))
     = sum_list (map (\<lambda>p. f (snd p)) al) - (case map_of al k of None \<Rightarrow> 0 | Some b \<Rightarrow> f b) + f v"
  by (induction al) (auto simp: algebra_simps)

lemma sum_aggregateStep:
  "sum_list (map (\<lambda>p. api_calls (snd p)) (aggregateStep selChain selCountry selCategory agg row))
     = sum_list (map (\<lambda>p. api_calls (snd p)) agg) + or0 (total_requests row)"
  "sum_list (map (\<lambda>p. b_unique_users (snd p)) (aggregateStep selChain selCountry selCategory agg row))
     = sum_list (map (\<lambda>p. b_unique_users (snd p)) agg) + or0 (unique_users row)"
  "sum_list (map (\<lambda>p. b_tx_volume_usd (snd p)) (aggregateStep selChain selCountry selCategory agg row))
     = sum_list (map (\<lambda>p. b_tx_volume_usd (snd p)) agg) + or0 (tx_volume_usd row)"
  by (simp_all add: aggregateStep_def Let_def sum_update addRow_def newBucket_def split: option.splits)

lemma sum_aggregate_fold:
  "sum_list (map (\<lambda>p. api_calls (snd p)) (foldl (aggregateStep selChain selCountry selCategory) agg data))
     = sum_list (map (\<lambda>p. api_calls (snd p)) agg) + sum_list (map (\<lambda>r. or0 (total_requests r)) data)"
  "sum_list (map (\<lambda>p. b_unique_users (snd p)) (foldl (aggregateStep selChain selCountry selCategory) agg data))
     = sum_list (map (\<lambda>p. b_unique_users (snd p)) agg) + sum_list (map (\<lambda>r. or0 (unique_users r)) data)"
  "sum_list (map (\<lambda>p. b_tx_volume_usd (snd p)) (foldl (aggregateStep selChain selCountry selCategory) agg data))
     = sum_list (map (\<lambda>p. b_tx_volume_usd (snd p)) agg) + sum_list (map (\<lambda>r. or0 (tx_volume_usd r)) data)"
  by (induction data arbitrary: agg) (simp_all add: sum_aggregateStep)

text \<open>
  Claim C1.  For every list of fact rows the aggregation by date has one bucket for each
  date that occurs and none else, with distinct keys; each bucket holds the sums of
  \<open>total_requests\<close>, \<open>unique_users\<close> and \<open>tx_volume_usd\<close> (a null counted as 0) over exactly
  the rows of its date; and the buckets together sum to the totals over all rows, so no
  row is counted twice or dropped.
\<close>

theorem aggregate_by_date:
  "distinct (map fst (aggregateByDate selChain selCountry selCategory data))
   \<and> set (map fst (aggregateByDate selChain selCountry selCategory data)) = date ` set data
   \<and> (\<forall>(k, b) \<in> set (aggregateByDate selChain selCountry selCategory data). bucketOf data k b)
   \<and> sum_list (map api_calls (rawData_of (aggregateByDate selChain selCountry selCategory data)))
       = sum_list (map (\<lambda>r. or0 (total_requests r)) data)
   \<and> sum_list (map b_unique_users (rawData_of (aggregateByDate selChain selCountry selCategory data)))
       = sum_list (map (\<lambda>r. or0 (unique_users r)) data)
   \<and> sum_list (map b_tx_volume_usd (rawData_of (aggregateByDate selChain selCountry selCategory data)))
       = sum_list (map (\<lambda>r. or0 (tx_volume_usd r)) data)"
proof -
  let ?agg = "foldl (aggregateStep selChain selCountry selCategory) [] data"
  have d: "distinct (map fst ?agg)"
    by (rule distinct_aggregate_fold) simp
  have k: "set (map fst ?agg) = date ` set data"
  proof -
    have "dom (map_of ?agg) = date ` set data"
      using aggregate_fold_buckets [of selChain selCountry selCategory data]
      by (auto simp: dom_def)
    then show ?thesis
      by (simp add: dom_map_of_conv_image_fst)
  qed
  have b: "\<forall>(k, b) \<in> set ?agg. bucketOf data k b"
  proof (clarify)
    fix k b
    assume "(k, b) \<in> set ?agg"
    with d have "map_of ?agg k = Some b"
      by simp
    with aggregate_fold_buckets [of selChain selCountry selCategory data k]
    show "bucketOf data k b"
      by blast
  qed
  have s: "sum_list (map api_calls (rawData_of ?agg)) = sum_list (map (\<lambda>r. or0 (total_requests r)) data)"
    "sum_list (map b_unique_users (rawData_of ?agg)) = sum_list (map (\<lambda>r. or0 (unique_users r)) data)"
    "sum_list (map b_tx_volume_usd (rawData_of ?agg)) = sum_list (map (\<lambda>r. or0 (tx_volume_usd r)) data)"
    using sum_aggregate_fold [of selChain selCountry selCategory "[]" data]
    by (simp_all add: rawData_of_def comp_def)
  from d k b s show ?thesis
    unfolding aggregateByDate_foldl by (intro conjI)
qed

theorem aggregate_by_date_witness:
  "aggregateByDate ''ethereum'' None None
     [\<lparr>date = ''2025-06-01'', country = Some ''US'', chain = ''ethereum'', category = ''defi'',
        total_requests = Some 100, unique_users = Some 7, tx_volume_usd = None\<rparr>,
      \<lparr>date = ''2025-06-02'', country = Some ''US'', chain = ''ethereum'', category = ''defi'',
        total_requests = Some 5, unique_users = None, tx_volume_usd = Some 2\<rparr>,
      \<lparr>date = ''2025-06-01'', country = Some ''CA'', chain = ''ethereum'', category = ''nft'',
        total_requests = None, unique_users = Some 3, tx_volume_usd = Some 10\<rparr>]
   = [(''2025-06-01'',
       \<lparr>b_date = ''2025-06-01'', b_chain = ''ethereum'', api_calls = 100, b_tx_volume_usd = 10,
        b_unique_users = 10, b_country = ''Global'', b_category = ''All Categories''\<rparr>),
      (''2025-06-02'',
       \<lparr>b_date = ''2025-06-02'', b_chain = ''ethereum'', api_calls = 5, b_tx_volume_usd = 2,
        b_unique_users = 0, b_country = ''Global'', b_category = ''All Categories''\<rparr>)]
   \<and> bucketOf
     [\<lparr>date = ''2025-06-01'', country = Some ''US'', chain = ''ethereum'', category = ''defi'',
        total_requests = Some 100, unique_users = Some 7, tx_volume_usd = None\<rparr>,
      \<lparr>date = ''2025-06-02'', country = Some ''US'', chain = ''ethereum'', category = ''defi'',
        total_requests = Some 5, unique_users = None, tx_volume_usd = Some 2\<rparr>,
      \<lparr>date = ''2025-06-01'', country = Some ''CA'', chain = ''ethereum'', category = ''nft'',
        total_requests = None, unique_users = Some 3, tx_volume_usd = Some 10\<rparr>]
     ''2025-06-01''
     \<lparr>b_date = ''2025-06-01'', b_chain = ''ethereum'', api_calls = 100, b_tx_volume_usd = 10,
      b_unique_users = 10, b_country = ''Global'', b_category = ''All Categories''\<rparr>"
proof -
  let ?data = "[\<lparr>date = ''2025-06-01'', country = Some ''US'', chain = ''ethereum'', category = ''defi'',
        total_requests = Some 100, unique_users = Some 7, tx_volume_usd = None\<rparr>,
      \<lparr>date = ''2025-06-02'', country = Some ''US'', chain = ''ethereum'', category = ''defi'',
        total_requests = Some 5, unique_users = None, tx_volume_usd = Some 2\<rparr>,
      \<lparr>date = ''2025-06-01'', country = Some ''CA'', chain = ''ethereum'', category = ''nft'',
        total_requests = None, unique_users = Some 3, tx_volume_usd = Some 10\<rparr>]"
  let ?first = "\<lparr>b_date = ''2025-06-01'', b_chain = ''ethereum'', api_calls = 100, b_tx_volume_usd = 10,
        b_unique_users = 10, b_country = ''Global'', b_category = ''All Categories''\<rparr>"
  let ?second = "\<lparr>b_date = ''2025-06-02'', b_chain = ''ethereum'', api_calls = 5, b_tx_volume_usd = 2,
        b_unique_users = 0, b_country = ''Global'', b_category = ''All Categories''\<rparr>"
  have a: "aggregateByDate ''ethereum'' None None ?data = [(''2025-06-01'', ?first), (''2025-06-02'', ?second)]"
    by (simp add: aggregateByDate_def aggregateStep_def addRow_def newBucket_def Let_def)
  from aggregate_by_date [of "''ethereum''" None None ?data]
  have "\<forall>(k, b) \<in> set (aggregateByDate ''ethereum'' None None ?data). bucketOf ?data k b"
    by blast
  then have "bucketOf ?data ''2025-06-01'' ?first"
    unfolding a by simp
  with a show ?thesis
    by simp
qed


subsection \<open>Ordering of the two thumbs\<close>

lemma clamp_upper: "hi < v \<Longrightarrow> clamp v lo hi = hi"
  by (simp add: clamp_def)

lemma clamp_lower: "v < lo \<Longrightarrow> lo \<le> hi \<Longrightarrow> clamp v lo hi = lo"
  by (simp add: clamp_def)

lemma clamp_le_hi: "clamp v lo hi \<le> hi"
  by (simp add: clamp_def)

lemma clamp_ge_lo: "lo \<le> hi \<Longrightarrow> lo \<le> clamp v lo hi"
  by (simp add: clamp_def)

lemma handlePointerMove_ordered:
  assumes "0 \<le> rs_minGap p" and "ordered p s"
    and "activeThumb s = Some LeftThumb \<longrightarrow> snd c = right s"
    and "activeThumb s = Some RightThumb \<longrightarrow> fst c = left s"
  shows "ordered p (handlePointerMove p c clientX s)"
proof (cases "activeThumb s")
  case None
  with assms show ?thesis by (simp add: handlePointerMove_def)
next
  case (Some t)
  show ?thesis
  proof (cases t)
    case LeftThumb
    with Some assms have c: "snd c = right s" by simp
    have "rs_min p \<le> right s - rs_minGap p"
      using assms by (simp add: ordered_def)
    then have "rs_min p \<le> clamp (clientXToValue p clientX) (rs_min p) (right s - rs_minGap p)"
      by (rule clamp_ge_lo)
    moreover have "clamp (clientXToValue p clientX) (rs_min p) (right s - rs_minGap p) \<le> right s - rs_minGap p"
      by (rule clamp_le_hi)
    ultimately show ?thesis
      using assms Some LeftThumb c by (simp add: handlePointerMove_def ordered_def)
  next
    case RightThumb
    with Some assms have c: "fst c = left s" by simp
    have "left s + rs_minGap p \<le> rs_max p"
      using assms by (simp add: ordered_def)
    then have "left s + rs_minGap p \<le> clamp (clientXToValue p clientX) (left s + rs_minGap p) (rs_max p)"
      by (rule clamp_ge_lo)
    moreover have "clamp (clientXToValue p clientX) (left s + rs_minGap p) (rs_max p) \<le> rs_max p"
      by (rule clamp_le_hi)
    ultimately show ?thesis
      using assms Some RightThumb c by (simp add: handlePointerMove_def ordered_def)
  qed
qed

lemma set_left_ordered:
  assumes "0 \<le> rs_minGap p" and "ordered p s"
  shows "ordered p (s\<lparr>left := clamp v (rs_min p) (right s - rs_minGap p)\<rparr>)"
proof -
  have "rs_min p \<le> right s - rs_minGap p"
    using assms by (simp add: ordered_def)
  then have "rs_min p \<le> clamp v (rs_min p) (right s - rs_minGap p)"
    by (rule clamp_ge_lo)
  moreover have "clamp v (rs_min p) (right s - rs_minGap p) \<le> right s - rs_minGap p"
    by (rule clamp_le_hi)
  ultimately show ?thesis
    using assms by (simp add: ordered_def)
qed

lemma set_right_ordered:
  assumes "0 \<le> rs_minGap p" and "ordered p s"
  shows "ordered p (s\<lparr>right := clamp v (left s + rs_minGap p) (rs_max p)\<rparr>)"
proof -
  have "left s + rs_minGap p \<le> rs_max p"
    using assms by (simp add: ordered_def)
  then have "left s + rs_minGap p \<le> clamp v (left s + rs_minGap p) (rs_max p)"
    by (rule clamp_ge_lo)
  moreover have "clamp v (left s + rs_minGap p) (rs_max p) \<le> rs_max p"
    by (rule clamp_le_hi)
  ultimately show ?thesis
    using assms by (simp add: ordered_def)
qed

lemma trackPointerDown_ordered:
  assumes "0 \<le> rs_minGap p" and "ordered p s"
  shows "ordered p (trackPointerDown p (left s) (right s) clientX s)"
  using set_left_ordered [OF assms] set_right_ordered [OF assms]
  by (simp add: trackPointerDown_def Let_def)

lemma onKeyDown_ordered:
  assumes "0 \<le> rs_minGap p" and "ordered p s"
  shows "ordered p (onKeyDown p which k s)"
  using set_left_ordered [OF assms] set_right_ordered [OF assms] assms(2)
  by (simp add: onKeyDown_def split: option.splits Thumb.splits)

lemma ordered_activeThumb: "ordered p (s\<lparr>activeThumb := a, listeners := l\<rparr>) = ordered p s"
  by (simp add: ordered_def)


lemma handlePointerMove_keeps:
  "activeThumb (handlePointerMove p c clientX s) = activeThumb s"
  "activeThumb s = Some LeftThumb \<Longrightarrow> right (handlePointerMove p c clientX s) = right s"
  "activeThumb s = Some RightThumb \<Longrightarrow> left (handlePointerMove p c clientX s) = left s"
  by (simp_all add: handlePointerMove_def split: option.splits Thumb.splits)

lemma pointerMove_fold_ordered:
  assumes "0 \<le> rs_minGap p" and "ordered p s"
    and "\<forall>c \<in> set cs. (activeThumb s = Some LeftThumb \<longrightarrow> snd c = right s)
                    \<and> (activeThumb s = Some RightThumb \<longrightarrow> fst c = left s)"
  shows "ordered p (foldl (\<lambda>s' c. handlePointerMove p c clientX s') s cs)"
  using assms(2,3)
proof (induction cs arbitrary: s)
  case Nil
  then show ?case by simp
next
  case (Cons c cs)
  let ?s = "handlePointerMove p c clientX s"
  from Cons.prems have "ordered p ?s"
    by (intro handlePointerMove_ordered [OF assms(1)]) simp_all
  moreover have "\<forall>c \<in> set cs. (activeThumb ?s = Some LeftThumb \<longrightarrow> snd c = right ?s)
                    \<and> (activeThumb ?s = Some RightThumb \<longrightarrow> fst c = left ?s)"
    using Cons.prems(2) by (simp add: handlePointerMove_keeps)
  ultimately show ?case
    using Cons.IH by simp
qed

text \<open>
  One event keeps the ordering when every registered listener closed over the current
  position of the thumb that is not dragged.
\<close>

lemma sliderStep_ordered:
  assumes "0 \<le> rs_minGap p" and "ordered p s" and "fresh s"
  shows "ordered p (sliderStep p s ev)"
proof (cases ev)
  case (ThumbPointerDown which clientX)
  have "ordered p (startDragging which s)"
    using assms(2) by (simp add: startDragging_def ordered_def)
  from trackPointerDown_ordered [OF assms(1) this, of clientX] ThumbPointerDown show ?thesis
    by (simp add: startDragging_def)
next
  case (TrackPointerDown clientX)
  with trackPointerDown_ordered [OF assms(1,2)] show ?thesis by simp
next
  case (PointerMove clientX)
  from assms(3) have "\<forall>c \<in> set (listeners s). (activeThumb s = Some LeftThumb \<longrightarrow> snd c = right s)
                    \<and> (activeThumb s = Some RightThumb \<longrightarrow> fst c = left s)"
    by (simp add: fresh_def)
  from pointerMove_fold_ordered [OF assms(1,2) this] PointerMove show ?thesis
    by simp
next
  case PointerUp
  with assms(2) show ?thesis by (simp add: stopDragging_def ordered_def)
next
  case (KeyDown which k)
  with onKeyDown_ordered [OF assms(1,2)] show ?thesis by simp
qed

lemma clientXToValue_demo: "clientXToValue demoProps 44 = 44" "clientXToValue demoProps 41 = 41"
  by (simp_all add: clientXToValue_def demoProps_def snap_def clamp_def Math_round_def Let_def)

text \<open>
  Claim C6 asks that every single update keeps \<open>left + minGap \<le> right\<close> with both
  thumbs inside \<open>[min, max]\<close>.  The drag handler does not: with the thumbs at 40 and 50,
  a pointer-down on the right thumb at 44 registers the handler that closed over
  \<open>left = 40\<close> and, through the track, moves the left thumb to 44; the state is ordered.
  The next pointer-move to 41 is clamped against the old \<open>left + minGap = 41\<close> and puts
  the right thumb at 41, below the left one.
\<close>

theorem range_slider_stale_drag:
  "ordered demoProps (initialSlider demoProps 40 50)
   \<and> sliderStep demoProps (initialSlider demoProps 40 50) (ThumbPointerDown RightThumb 44)
       = \<lparr>left = 44, right = 50, activeThumb = Some RightThumb, listeners = [(40, 50)]\<rparr>
   \<and> ordered demoProps \<lparr>left = 44, right = 50, activeThumb = Some RightThumb, listeners = [(40, 50)]\<rparr>
   \<and> sliderStep demoProps \<lparr>left = 44, right = 50, activeThumb = Some RightThumb, listeners = [(40, 50)]\<rparr>
         (PointerMove 41)
       = \<lparr>left = 44, right = 41, activeThumb = Some RightThumb, listeners = [(40, 50)]\<rparr>
   \<and> \<not> ordered demoProps
         (sliderRun demoProps (initialSlider demoProps 40 50) [ThumbPointerDown RightThumb 44, PointerMove 41])"
proof -
  have i: "initialSlider demoProps 40 50 = \<lparr>left = 40, right = 50, activeThumb = None, listeners = []\<rparr>"
    by (simp add: initialSlider_def demoProps_def snap_def clamp_def Math_round_def)
  have d: "sliderStep demoProps \<lparr>left = 40, right = 50, activeThumb = None, listeners = []\<rparr>
             (ThumbPointerDown RightThumb 44)
           = \<lparr>left = 44, right = 50, activeThumb = Some RightThumb, listeners = [(40, 50)]\<rparr>"
    by (simp add: trackPointerDown_def startDragging_def clientXToValue_demo Let_def)
      (simp add: demoProps_def clamp_def)
  have m: "sliderStep demoProps \<lparr>left = 44, right = 50, activeThumb = Some RightThumb, listeners = [(40, 50)]\<rparr>
             (PointerMove 41)
           = \<lparr>left = 44, right = 41, activeThumb = Some RightThumb, listeners = [(40, 50)]\<rparr>"
    by (simp add: handlePointerMove_def clientXToValue_demo)
      (simp add: demoProps_def clamp_def)
  have o: "ordered demoProps \<lparr>left = 40, right = 50, activeThumb = None, listeners = []\<rparr>"
    "ordered demoProps \<lparr>left = 44, right = 50, activeThumb = Some RightThumb, listeners = [(40, 50)]\<rparr>"
    "\<not> ordered demoProps \<lparr>left = 44, right = 41, activeThumb = Some RightThumb, listeners = [(40, 50)]\<rparr>"
    by (simp_all add: ordered_def demoProps_def)
  show ?thesis
    unfolding sliderRun_def foldl_Cons foldl_Nil i d m using o by simp
qed

text \<open>
  Claim C7, as the code has it.  In \<open>RangeSlider\<close> an update computed from the current
  thumb positions (a drag whose handler holds them, a key, a click on the track) that asks
  for a value beyond the boundary set by the other thumb ends exactly on that boundary:
  \<open>left = right - minGap\<close>, and \<open>right = left + minGap\<close> when that is at most \<open>max\<close>.  The
  date sliders of the Dashboard and \<open>DualRangeSlider\<close> do not clamp: a start value that
  is not below the end value, or an end value that is not above the start value, is
  dropped and the thumb keeps its value.
\<close>

theorem thumb_update_clamped:
  "(activeThumb s = Some LeftThumb \<and> right s - rs_minGap p < clientXToValue p clientX
      \<longrightarrow> left (handlePointerMove p (left s, right s) clientX s) = right s - rs_minGap p)
   \<and> (activeThumb s = Some RightThumb \<and> clientXToValue p clientX < left s + rs_minGap p
        \<and> left s + rs_minGap p \<le> rs_max p
      \<longrightarrow> right (handlePointerMove p (left s, right s) clientX s) = left s + rs_minGap p)
   \<and> (keyTarget p LeftThumb k s = Some nxt \<and> right s - rs_minGap p < snap p nxt
      \<longrightarrow> left (onKeyDown p LeftThumb k s) = right s - rs_minGap p)
   \<and> (keyTarget p RightThumb k s = Some nxt \<and> snap p nxt < left s + rs_minGap p
        \<and> left s + rs_minGap p \<le> rs_max p
      \<longrightarrow> right (onKeyDown p RightThumb k s) = left s + rs_minGap p)
   \<and> (\<bar>clientXToValue p clientX - left s\<bar> \<le> \<bar>clientXToValue p clientX - right s\<bar>
        \<and> right s - rs_minGap p < clientXToValue p clientX
      \<longrightarrow> left (trackPointerDown p (left s) (right s) clientX s) = right s - rs_minGap p)
   \<and> (\<not> \<bar>clientXToValue p clientX - left s\<bar> \<le> \<bar>clientXToValue p clientX - right s\<bar>
        \<and> clientXToValue p clientX < left s + rs_minGap p \<and> left s + rs_minGap p \<le> rs_max p
      \<longrightarrow> right (trackPointerDown p (left s) (right s) clientX s) = left s + rs_minGap p)
   \<and> (sliderValue d \<le> newStart \<longrightarrow> startOnChange newStart d = d)
   \<and> (newEnd \<le> startSliderValue d \<longrightarrow> endOnChange newEnd d = d)
   \<and> (endValue \<le> newStart \<longrightarrow> handleStartChange startValue endValue newStart = None)
   \<and> (newEnd \<le> startValue \<longrightarrow> handleEndChange startValue endValue newEnd = None)"
proof -
  have 1: "activeThumb s = Some LeftThumb \<and> right s - rs_minGap p < clientXToValue p clientX
      \<longrightarrow> left (handlePointerMove p (left s, right s) clientX s) = right s - rs_minGap p"
    by (simp add: handlePointerMove_def clamp_upper)
  have 2: "activeThumb s = Some RightThumb \<and> clientXToValue p clientX < left s + rs_minGap p
        \<and> left s + rs_minGap p \<le> rs_max p
      \<longrightarrow> right (handlePointerMove p (left s, right s) clientX s) = left s + rs_minGap p"
    by (simp add: handlePointerMove_def clamp_lower)
  have 3: "keyTarget p LeftThumb k s = Some nxt \<and> right s - rs_minGap p < snap p nxt
      \<longrightarrow> left (onKeyDown p LeftThumb k s) = right s - rs_minGap p"
    by (simp add: onKeyDown_def clamp_upper)
  have 4: "keyTarget p RightThumb k s = Some nxt \<and> snap p nxt < left s + rs_minGap p
        \<and> left s + rs_minGap p \<le> rs_max p
      \<longrightarrow> right (onKeyDown p RightThumb k s) = left s + rs_minGap p"
    by (simp add: onKeyDown_def clamp_lower)
  have 5: "\<bar>clientXToValue p clientX - left s\<bar> \<le> \<bar>clientXToValue p clientX - right s\<bar>
        \<and> right s - rs_minGap p < clientXToValue p clientX
      \<longrightarrow> left (trackPointerDown p (left s) (right s) clientX s) = right s - rs_minGap p"
    by (simp add: trackPointerDown_def Let_def clamp_upper)
  have 6: "\<not> \<bar>clientXToValue p clientX - left s\<bar> \<le> \<bar>clientXToValue p clientX - right s\<bar>
        \<and> clientXToValue p clientX < left s + rs_minGap p \<and> left s + rs_minGap p \<le> rs_max p
      \<longrightarrow> right (trackPointerDown p (left s) (right s) clientX s) = left s + rs_minGap p"
    by (simp add: trackPointerDown_def Let_def clamp_lower)
  have 7: "sliderValue d \<le> newStart \<longrightarrow> startOnChange newStart d = d"
    by (simp add: startOnChange_def)
  have 8: "newEnd \<le> startSliderValue d \<longrightarrow> endOnChange newEnd d = d"
    by (simp add: endOnChange_def)
  have 9: "endValue \<le> newStart \<longrightarrow> handleStartChange startValue endValue newStart = None"
    by (simp add: handleStartChange_def)
  have 10: "newEnd \<le> startValue \<longrightarrow> handleEndChange startValue endValue newEnd = None"
    by (simp add: handleEndChange_def)
  from 1 2 3 4 5 6 7 8 9 10 show ?thesis
    by (intro conjI)
qed

theorem thumb_update_clamped_witness:
  "left (handlePointerMove sixtyProps (30, 60) 60
           \<lparr>left = 30, right = 60, activeThumb = Some LeftThumb, listeners = [(30, 60)]\<rparr>) = 59
   \<and> left (onKeyDown sixtyProps LeftThumb PageUp
           \<lparr>left = 55, right = 60, activeThumb = None, listeners = []\<rparr>) = 59
   \<and> right (onKeyDown sixtyProps RightThumb PageDown
           \<lparr>left = 30, right = 35, activeThumb = None, listeners = []\<rparr>) = 31
   \<and> startOnChange 60 \<lparr>startSliderValue = 10, sliderValue = 60\<rparr>
       = \<lparr>startSliderValue = 10, sliderValue = 60\<rparr>"
proof -
  let ?s = "\<lparr>left = 30, right = 60, activeThumb = Some LeftThumb, listeners = [(30, 60)]\<rparr>"
  let ?t = "\<lparr>left = 55, right = 60, activeThumb = None, listeners = []\<rparr>"
  let ?u = "\<lparr>left = 30, right = 35, activeThumb = None, listeners = []\<rparr>"
  let ?d = "\<lparr>startSliderValue = 10, sliderValue = 60\<rparr>"
  have v: "clientXToValue sixtyProps 60 = 60"
    by (simp add: clientXToValue_def sixtyProps_def snap_def clamp_def Math_round_def Let_def)
  have g: "rs_minGap sixtyProps = 1" "rs_max sixtyProps = 60"
    by (simp_all add: sixtyProps_def)
  have k: "keyTarget sixtyProps LeftThumb PageUp ?t = Some 65" "snap sixtyProps 65 = 65"
    by (simp_all add: keyTarget_def sixtyProps_def snap_def Math_round_def)
  have h: "keyTarget sixtyProps RightThumb PageDown ?u = Some 25" "snap sixtyProps 25 = 25"
    by (simp_all add: keyTarget_def sixtyProps_def snap_def Math_round_def)
  from thumb_update_clamped [where s = ?s and p = sixtyProps and clientX = 60 and d = ?d and newStart = 60] v g
  have "left (handlePointerMove sixtyProps (30, 60) 60 ?s) = 59"
    by simp
  moreover from thumb_update_clamped [where s = ?t and p = sixtyProps and k = PageUp and nxt = 65] k g
  have "left (onKeyDown sixtyProps LeftThumb PageUp ?t) = 59"
    by simp
  moreover from thumb_update_clamped [where s = ?u and p = sixtyProps and k = PageDown and nxt = 25] h g
  have "right (onKeyDown sixtyProps RightThumb PageDown ?u) = 31"
    by simp
  moreover from thumb_update_clamped [where s = ?s and p = sixtyProps and clientX = 60 and d = ?d and newStart = 60]
  have "startOnChange 60 ?d = ?d"
    by simp
  ultimately show ?thesis
    by simp
qed

text \<open>
  Claim C7 as stated fails: with the start slider at 10 and the end slider at 60, the
  requested start value 60 is dropped; the start stays at 10 and is not moved to 59.
\<close>

theorem dashboard_slider_rejects_counterexample:
  "startSliderValue (startOnChange 60 \<lparr>startSliderValue = 10, sliderValue = 60\<rparr>) = 10
   \<and> startSliderValue (startOnChange 60 \<lparr>startSliderValue = 10, sliderValue = 60\<rparr>) \<noteq> 60 - 1
   \<and> handleStartChange 10 60 60 = None"
  by (simp add: startOnChange_def handleStartChange_def)

end
